theory Spec2Isabelle
  imports Main "HOL-Library.Word" "HOL-Library.Sublist"
begin

unbundle bit_operations_syntax

section \<open>The SBOMRegistry contract (src/contracts/SBOMRegistry.sol)\<close>

text \<open>
  Solidity value types are modelled at their width: \<open>bytes32\<close> and \<open>uint256\<close> as
  256-bit words, \<open>address\<close> as a 160-bit word, \<open>uint8\<close> as an 8-bit word, and
  \<open>bytes\<close> as a list of bytes. A Solidity \<open>mapping\<close> gives the zero value of its
  value type at every key never written, so it is a total function; a dynamic storage
  array is a list.
\<close>

type_synonym bytes32 = "256 word"
type_synonym uint256 = "256 word"
type_synonym address = "160 word"
type_synonym uint8 = "8 word"
type_synonym bytes = "8 word list"

subsection \<open>Structs\<close>

record SBOMRecord =
  hash :: bytes32
  vendor :: address
  timestamp :: uint256
  metadata :: string
  previousHash :: bytes32
  signature :: bytes

record VendorInfo =
  name :: string
  website :: string
  contactEmail :: string
  verified :: bool
  registeredAt :: uint256

subsection \<open>Events and revert reasons\<close>

datatype event =
    SBOMRegistered bytes32 address uint256 string
  | SBOMUpdated bytes32 bytes32 address uint256
  | VendorRegistered address string uint256
  | VendorRevoked address uint256

text \<open>One constructor for each \<open>require\<close> message of the contract.\<close>

datatype error =
    Only_registry_owner
  | Invalid_vendor_address
  | Vendor_already_registered
  | Name_cannot_be_empty
  | Vendor_not_verified
  | Invalid_new_owner_address
  | SBOM_already_registered
  | Invalid_signature_length
  | Invalid_signature_version
  | Signer_does_not_match_sender
  | Vendor_not_verified_register_first
  | Original_SBOM_not_found
  | Only_original_vendor_can_update
  | New_hash_already_registered

text \<open>The error kinds of the specification, and the kind each revert reason stands for.\<close>

datatype kind =
    Unauthorized
  | InvalidIdentity
  | EmptyName
  | DuplicatePublisher
  | NotVerified
  | RecordAlreadyExists
  | RecordNotFound
  | NotOriginalPublisher
  | PublisherNotVerified
  | InvalidSignatureLength
  | InvalidSignatureVersion
  | SignatureMismatch

fun kind_of :: "error \<Rightarrow> kind" where
  "kind_of Only_registry_owner = Unauthorized"
| "kind_of Invalid_vendor_address = InvalidIdentity"
| "kind_of Vendor_already_registered = DuplicatePublisher"
| "kind_of Name_cannot_be_empty = EmptyName"
| "kind_of Vendor_not_verified = NotVerified"
| "kind_of Invalid_new_owner_address = InvalidIdentity"
| "kind_of SBOM_already_registered = RecordAlreadyExists"
| "kind_of Invalid_signature_length = InvalidSignatureLength"
| "kind_of Invalid_signature_version = InvalidSignatureVersion"
| "kind_of Signer_does_not_match_sender = SignatureMismatch"
| "kind_of Vendor_not_verified_register_first = PublisherNotVerified"
| "kind_of Original_SBOM_not_found = RecordNotFound"
| "kind_of Only_original_vendor_can_update = NotOriginalPublisher"
| "kind_of New_hash_already_registered = RecordAlreadyExists"

subsection \<open>State variables\<close>

text \<open>
  The four mappings and the owner of the contract, and the log of emitted events (the
  log is written by \<open>emit\<close> and never read by the contract).
\<close>

record contract_state =
  sbomRecords :: "bytes32 \<Rightarrow> SBOMRecord"
  versionHistory :: "bytes32 \<Rightarrow> bytes32 list"
  rootHash :: "bytes32 \<Rightarrow> bytes32"
  vendors :: "address \<Rightarrow> VendorInfo"
  registryOwner :: address
  events :: "event list"

definition zero_record :: SBOMRecord where
  "zero_record = \<lparr>hash = 0, vendor = 0, timestamp = 0, metadata = [],
     previousHash = 0, signature = []\<rparr>"

definition zero_vendor :: VendorInfo where
  "zero_vendor = \<lparr>name = [], website = [], contactEmail = [], verified = False,
     registeredAt = 0\<rparr>"

text \<open>The constructor: every mapping empty, the deployer the owner.\<close>

definition constructor :: "address \<Rightarrow> contract_state" where
  "constructor sender =
     \<lparr>sbomRecords = (\<lambda>_. zero_record), versionHistory = (\<lambda>_. []),
      rootHash = (\<lambda>_. 0), vendors = (\<lambda>_. zero_vendor),
      registryOwner = sender, events = []\<rparr>"

subsection \<open>Vendor registry functions\<close>

text \<open>
  Every state-changing function takes the state, \<open>msg.sender\<close> and
  \<open>block.timestamp\<close>, and returns the revert reason or the state after the call.
\<close>

definition registerVendor ::
  "contract_state \<Rightarrow> address \<Rightarrow> uint256 \<Rightarrow> address \<Rightarrow> string \<Rightarrow> string \<Rightarrow> string
     \<Rightarrow> error + contract_state" where
  "registerVendor s sender block_timestamp v nm ws em =
     (if sender \<noteq> registryOwner s then Inl Only_registry_owner
      else if v = 0 then Inl Invalid_vendor_address
      else if verified (vendors s v) then Inl Vendor_already_registered
      else if \<not> length nm > 0 then Inl Name_cannot_be_empty
      else Inr (s\<lparr>vendors := (vendors s)(v :=
                    \<lparr>name = nm, website = ws, contactEmail = em, verified = True,
                     registeredAt = block_timestamp\<rparr>),
                  events := events s @ [VendorRegistered v nm block_timestamp]\<rparr>))"

definition revokeVendor ::
  "contract_state \<Rightarrow> address \<Rightarrow> uint256 \<Rightarrow> address \<Rightarrow> error + contract_state" where
  "revokeVendor s sender block_timestamp v =
     (if sender \<noteq> registryOwner s then Inl Only_registry_owner
      else if \<not> verified (vendors s v) then Inl Vendor_not_verified
      else Inr (s\<lparr>vendors := (vendors s)(v := (vendors s v)\<lparr>verified := False\<rparr>),
                  events := events s @ [VendorRevoked v block_timestamp]\<rparr>))"

definition isVerifiedVendor :: "contract_state \<Rightarrow> address \<Rightarrow> bool" where
  "isVerifiedVendor s v = verified (vendors s v)"

definition getVendorInfo :: "contract_state \<Rightarrow> address \<Rightarrow> VendorInfo" where
  "getVendorInfo s v = vendors s v"

definition transferOwnership ::
  "contract_state \<Rightarrow> address \<Rightarrow> address \<Rightarrow> error + contract_state" where
  "transferOwnership s sender newOwner =
     (if sender \<noteq> registryOwner s then Inl Only_registry_owner
      else if newOwner = 0 then Inl Invalid_new_owner_address
      else Inr (s\<lparr>registryOwner := newOwner\<rparr>))"

subsection \<open>Signature recovery\<close>

text \<open>
  \<open>keccak256\<close> and the \<open>ecrecover\<close> precompile belong to the EVM, not to the
  contract: they are parameters of the model, and every theorem holds for any pair of
  functions in their place.
\<close>

record evm =
  keccak256 :: "bytes \<Rightarrow> bytes32"
  ecrecover :: "bytes32 \<Rightarrow> uint8 \<Rightarrow> bytes32 \<Rightarrow> bytes32 \<Rightarrow> address"

text \<open>A big-endian 32-byte word read from a byte array, as \<open>mload\<close> reads it.\<close>

definition bytes_to_word :: "bytes \<Rightarrow> bytes32" where
  "bytes_to_word bs = foldl (\<lambda>acc b. push_bit 8 acc OR ucast b) 0 bs"

definition mload :: "bytes \<Rightarrow> nat \<Rightarrow> bytes32" where
  "mload sg off = bytes_to_word (take 32 (drop off sg))"

text \<open>The 32 bytes of a \<open>bytes32\<close>, most significant first, as \<open>abi.encodePacked\<close> writes it.\<close>

definition bytes32_to_bytes :: "bytes32 \<Rightarrow> bytes" where
  "bytes32_to_bytes h = map (\<lambda>i. ucast (drop_bit (8 * (31 - i)) h)) [0..<32]"

text \<open>The string literal \<open>"\x19Ethereum Signed Message:\n32"\<close>.\<close>

definition eth_prefix :: bytes where
  "eth_prefix = 0x19 # map of_char ''Ethereum Signed Message:'' @ [0x0A, 0x33, 0x32]"

text \<open>
  \<open>r\<close> is the first 32 bytes of the signature, \<open>s\<close> the next 32, and \<open>v\<close> the byte at
  offset 64 (the first byte of the word loaded there). \<open>v += 27\<close> runs only for
  \<open>v < 27\<close>, where checked \<open>uint8\<close> addition cannot overflow.
\<close>

definition recoverSigner :: "evm \<Rightarrow> bytes32 \<Rightarrow> bytes \<Rightarrow> error + address" where
  "recoverSigner K h sg =
     (if length sg \<noteq> 65 then Inl Invalid_signature_length
      else
        let r = mload sg 0;
            s = mload sg 32;
            v = sg ! 64;
            v = (if v < 27 then v + 27 else v)
        in if \<not> (v = 27 \<or> v = 28) then Inl Invalid_signature_version
           else
             let ethSignedHash = keccak256 K (eth_prefix @ bytes32_to_bytes h)
             in Inr (ecrecover K ethSignedHash v r s))"

subsection \<open>SBOM registration functions\<close>

definition registerSBOM ::
  "evm \<Rightarrow> contract_state \<Rightarrow> address \<Rightarrow> uint256 \<Rightarrow> bytes32 \<Rightarrow> string \<Rightarrow> bytes
     \<Rightarrow> error + contract_state" where
  "registerSBOM K s sender block_timestamp h md sg =
     (if timestamp (sbomRecords s h) \<noteq> 0 then Inl SBOM_already_registered
      else if length sg \<noteq> 65 then Inl Invalid_signature_length
      else case recoverSigner K h sg of
        Inl e \<Rightarrow> Inl e
      | Inr signer \<Rightarrow>
          if signer \<noteq> sender then Inl Signer_does_not_match_sender
          else if \<not> verified (vendors s sender) then Inl Vendor_not_verified_register_first
          else Inr (s\<lparr>sbomRecords := (sbomRecords s)(h :=
                        \<lparr>hash = h, vendor = sender, timestamp = block_timestamp,
                         metadata = md, previousHash = 0, signature = sg\<rparr>),
                      rootHash := (rootHash s)(h := h),
                      versionHistory := (versionHistory s)(h := versionHistory s h @ [h]),
                      events := events s @ [SBOMRegistered h sender block_timestamp md]\<rparr>))"

definition updateSBOM ::
  "evm \<Rightarrow> contract_state \<Rightarrow> address \<Rightarrow> uint256 \<Rightarrow> bytes32 \<Rightarrow> bytes32 \<Rightarrow> string \<Rightarrow> bytes
     \<Rightarrow> error + contract_state" where
  "updateSBOM K s sender block_timestamp oldHash newHash md sg =
     (if \<not> timestamp (sbomRecords s oldHash) \<noteq> 0 then Inl Original_SBOM_not_found
      else if vendor (sbomRecords s oldHash) \<noteq> sender then Inl Only_original_vendor_can_update
      else if timestamp (sbomRecords s newHash) \<noteq> 0 then Inl New_hash_already_registered
      else if length sg \<noteq> 65 then Inl Invalid_signature_length
      else case recoverSigner K newHash sg of
        Inl e \<Rightarrow> Inl e
      | Inr signer \<Rightarrow>
          if signer \<noteq> sender then Inl Signer_does_not_match_sender
          else
            let root = rootHash s oldHash
            in Inr (s\<lparr>sbomRecords := (sbomRecords s)(newHash :=
                         \<lparr>hash = newHash, vendor = sender, timestamp = block_timestamp,
                          metadata = md, previousHash = oldHash, signature = sg\<rparr>),
                       rootHash := (rootHash s)(newHash := root),
                       versionHistory :=
                         (versionHistory s)(root := versionHistory s root @ [newHash]),
                       events := events s @
                         [SBOMUpdated oldHash newHash sender block_timestamp]\<rparr>))"

subsection \<open>Verification and version history views\<close>

definition verifySignature ::
  "evm \<Rightarrow> contract_state \<Rightarrow> bytes32 \<Rightarrow> error + (bool \<times> address)" where
  "verifySignature K s h =
     (let record = sbomRecords s h
      in if timestamp record = 0 then Inr (False, 0)
         else case recoverSigner K h (signature record) of
           Inl e \<Rightarrow> Inl e
         | Inr signer \<Rightarrow> Inr (signer = vendor record, signer))"

definition verifySBOM :: "contract_state \<Rightarrow> bytes32 \<Rightarrow> bool \<times> SBOMRecord" where
  "verifySBOM s h = (let record = sbomRecords s h in (timestamp record \<noteq> 0, record))"

definition verifyCompleteSBOM ::
  "evm \<Rightarrow> contract_state \<Rightarrow> bytes32 \<Rightarrow> error + (bool \<times> bool \<times> bool \<times> string)" where
  "verifyCompleteSBOM K s h =
     (let record = sbomRecords s h;
          exists = (timestamp record \<noteq> 0)
      in if \<not> exists then Inr (False, False, False, [])
         else case verifySignature K s h of
           Inl e \<Rightarrow> Inl e
         | Inr (signatureValid, _) \<Rightarrow>
             Inr (exists, signatureValid, verified (vendors s (vendor record)),
                  name (vendors s (vendor record))))"

definition getVersionHistory :: "contract_state \<Rightarrow> bytes32 \<Rightarrow> bytes32 list" where
  "getVersionHistory s h = (let root = rootHash s h in versionHistory s root)"

text \<open>
  The count is a \<open>uint256\<close> in the contract; the length of a storage array cannot reach
  \<open>2 ^ 256\<close>, so the model returns the length as it is.
\<close>

definition getVersionCount :: "contract_state \<Rightarrow> bytes32 \<Rightarrow> nat" where
  "getVersionCount s h = (let root = rootHash s h in length (versionHistory s root))"

definition getRootHash :: "contract_state \<Rightarrow> bytes32 \<Rightarrow> bytes32" where
  "getRootHash s h = rootHash s h"

subsection \<open>Transactions\<close>

text \<open>
  A transaction is a call of one of the five state-changing functions with its sender and
  the timestamp of its block. A call that reverts leaves the state as it was.
\<close>

datatype call =
    RegisterVendor address string string string
  | RevokeVendor address
  | TransferOwnership address
  | RegisterSBOM bytes32 string bytes
  | UpdateSBOM bytes32 bytes32 string bytes

record tx =
  tx_sender :: address
  tx_timestamp :: uint256
  tx_call :: call

definition tx_of :: "address \<Rightarrow> uint256 \<Rightarrow> call \<Rightarrow> tx" where
  "tx_of a n c = \<lparr>tx_sender = a, tx_timestamp = n, tx_call = c\<rparr>"

text \<open>The hash under which a call stores a record, if it stores one.\<close>

fun target :: "call \<Rightarrow> bytes32 option" where
  "target (RegisterSBOM h md sg) = Some h"
| "target (UpdateSBOM oh nh md sg) = Some nh"
| "target (RegisterVendor v nm ws em) = None"
| "target (RevokeVendor v) = None"
| "target (TransferOwnership a) = None"

definition exec :: "evm \<Rightarrow> contract_state \<Rightarrow> tx \<Rightarrow> error + contract_state" where
  "exec K s t =
     (case tx_call t of
        RegisterVendor v nm ws em \<Rightarrow>
          registerVendor s (tx_sender t) (tx_timestamp t) v nm ws em
      | RevokeVendor v \<Rightarrow> revokeVendor s (tx_sender t) (tx_timestamp t) v
      | TransferOwnership a \<Rightarrow> transferOwnership s (tx_sender t) a
      | RegisterSBOM h md sg \<Rightarrow> registerSBOM K s (tx_sender t) (tx_timestamp t) h md sg
      | UpdateSBOM oh nh md sg \<Rightarrow>
          updateSBOM K s (tx_sender t) (tx_timestamp t) oh nh md sg)"

definition apply_tx :: "evm \<Rightarrow> contract_state \<Rightarrow> tx \<Rightarrow> contract_state" where
  "apply_tx K s t = (case exec K s t of Inl _ \<Rightarrow> s | Inr s' \<Rightarrow> s')"

definition run :: "evm \<Rightarrow> contract_state \<Rightarrow> tx list \<Rightarrow> contract_state" where
  "run K s ts = foldl (apply_tx K) s ts"

text \<open>
  The states the contract can be in: the state the constructor leaves, and every state
  a successful transaction leads to. A block that carries a transaction has a positive
  Unix time as its timestamp, which the contract relies on: it reads a record's
  \<open>timestamp\<close> field as the flag that the record exists.
\<close>

inductive reachable :: "evm \<Rightarrow> contract_state \<Rightarrow> bool" for K :: evm where
  reachable_init: "reachable K (constructor deployer)"
| reachable_step:
    "reachable K s \<Longrightarrow> tx_timestamp t \<noteq> 0 \<Longrightarrow> exec K s t = Inr s' \<Longrightarrow> reachable K s'"


subsection \<open>The invariant of the reachable states\<close>

text \<open>
  A record exists when its timestamp is not zero (the contract's own test). In every
  reachable state the signature stored with an existing record recovers to the record's
  vendor, the root of an existing record exists and is its own root, and a hash with no
  record has no root entry and no history of its own.
\<close>

definition registered :: "contract_state \<Rightarrow> bytes32 \<Rightarrow> bool" where
  "registered s h = (timestamp (sbomRecords s h) \<noteq> 0)"

definition wf_state :: "evm \<Rightarrow> contract_state \<Rightarrow> bool" where
  "wf_state K s =
     ((\<forall>h. registered s h \<longrightarrow>
          recoverSigner K h (signature (sbomRecords s h)) = Inr (vendor (sbomRecords s h)) \<and>
          registered s (rootHash s h) \<and>
          rootHash s (rootHash s h) = rootHash s h) \<and>
      (\<forall>h. \<not> registered s h \<longrightarrow> rootHash s h = 0 \<and> versionHistory s h = []))"

subsection \<open>A small instance for evaluation\<close>

text \<open>
  An instance of the two EVM primitives on which the functions can be evaluated: the digest
  is the last 32 bytes of the message, and the address recovered from a signature is
  carried in its \<open>r\<close> component. The theorems below hold for every instance; this one
  supplies concrete states.
\<close>

definition toy_evm :: evm where
  "toy_evm = \<lparr>keccak256 = (\<lambda>bs. bytes_to_word (drop 28 bs)),
               ecrecover = (\<lambda>d v r s. ucast r)\<rparr>"

definition toy_sig :: "uint8 \<Rightarrow> bytes" where
  "toy_sig b = replicate 31 0 @ [b] @ replicate 32 0 @ [0]"

text \<open>
  The scenario of the specification: the owner (address 1) registers publisher 5 as
  Acme, who registers hash \<open>0x11\<close> and updates it to \<open>0x22\<close>; the owner then revokes
  the publisher.
\<close>

definition demo_vendor :: contract_state where
  "demo_vendor = run toy_evm (constructor 1)
     [tx_of 1 1000 (RegisterVendor 5 ''Acme'' ''https://acme.com'' ''security@acme.com'')]"

definition demo_v1 :: contract_state where
  "demo_v1 = run toy_evm demo_vendor [tx_of 5 1001 (RegisterSBOM 0x11 ''v1.0'' (toy_sig 5))]"

definition demo_v2 :: contract_state where
  "demo_v2 = run toy_evm demo_v1 [tx_of 5 1002 (UpdateSBOM 0x11 0x22 ''v2.0'' (toy_sig 5))]"

definition demo_revoked :: contract_state where
  "demo_revoked = run toy_evm demo_v2 [tx_of 1 1003 (RevokeVendor 5)]"

text \<open>The same publisher registering the zero hash instead.\<close>

definition demo_zero :: contract_state where
  "demo_zero = run toy_evm demo_vendor [tx_of 5 1001 (RegisterSBOM 0 ''v1.0'' (toy_sig 5))]"

text \<open>The publisher then updates the zero hash to \<open>0x22\<close>.\<close>

definition demo_zero_update :: contract_state where
  "demo_zero_update =
     run toy_evm demo_zero [tx_of 5 1002 (UpdateSBOM 0 0x22 ''v2.0'' (toy_sig 5))]"

section \<open>Properties\<close>

subsection \<open>When the two registration functions succeed\<close>

lemma registerSBOM_Inr:
  "registerSBOM K s a n h md sg = Inr s' \<longleftrightarrow>
     \<not> registered s h \<and> recoverSigner K h sg = Inr a \<and> verified (vendors s a) \<and>
     s' = s\<lparr>sbomRecords := (sbomRecords s)(h :=
                \<lparr>hash = h, vendor = a, timestamp = n, metadata = md, previousHash = 0,
                 signature = sg\<rparr>),
              rootHash := (rootHash s)(h := h),
              versionHistory := (versionHistory s)(h := versionHistory s h @ [h]),
              events := events s @ [SBOMRegistered h a n md]\<rparr>"
  by (auto simp: registerSBOM_def registered_def recoverSigner_def Let_def
      split: if_splits sum.splits)

lemma updateSBOM_Inr:
  "updateSBOM K s a n oh nh md sg = Inr s' \<longleftrightarrow>
     registered s oh \<and> vendor (sbomRecords s oh) = a \<and> \<not> registered s nh \<and>
     recoverSigner K nh sg = Inr a \<and>
     s' = s\<lparr>sbomRecords := (sbomRecords s)(nh :=
                \<lparr>hash = nh, vendor = a, timestamp = n, metadata = md, previousHash = oh,
                 signature = sg\<rparr>),
              rootHash := (rootHash s)(nh := rootHash s oh),
              versionHistory := (versionHistory s)(rootHash s oh :=
                 versionHistory s (rootHash s oh) @ [nh]),
              events := events s @ [SBOMUpdated oh nh a n]\<rparr>"
  by (auto simp: updateSBOM_def registered_def recoverSigner_def Let_def
      split: if_splits sum.splits)

subsection \<open>The invariant holds in every reachable state\<close>

lemma wf_constructor: "wf_state K (constructor d)"
  by (simp add: wf_state_def registered_def constructor_def zero_record_def)

lemma wf_registerVendor:
  "wf_state K s \<Longrightarrow> registerVendor s a n v nm ws em = Inr s' \<Longrightarrow> wf_state K s'"
  by (auto simp: wf_state_def registered_def registerVendor_def split: if_splits)

lemma wf_revokeVendor:
  "wf_state K s \<Longrightarrow> revokeVendor s a n v = Inr s' \<Longrightarrow> wf_state K s'"
  by (auto simp: wf_state_def registered_def revokeVendor_def split: if_splits)

lemma wf_transferOwnership:
  "wf_state K s \<Longrightarrow> transferOwnership s a v = Inr s' \<Longrightarrow> wf_state K s'"
  by (auto simp: wf_state_def registered_def transferOwnership_def split: if_splits)

lemma wf_registerSBOM:
  assumes "wf_state K s" "n \<noteq> 0" "registerSBOM K s a n h md sg = Inr s'"
  shows "wf_state K s'"
  using assms unfolding registerSBOM_Inr
  by (auto simp: wf_state_def registered_def)

lemma wf_updateSBOM:
  assumes "wf_state K s" "n \<noteq> 0" "updateSBOM K s a n oh nh md sg = Inr s'"
  shows "wf_state K s'"
  using assms unfolding updateSBOM_Inr
  by (auto simp: wf_state_def registered_def)

lemma wf_exec:
  "wf_state K s \<Longrightarrow> tx_timestamp t \<noteq> 0 \<Longrightarrow> exec K s t = Inr s' \<Longrightarrow> wf_state K s'"
  by (auto simp: exec_def split: call.splits
      intro: wf_registerVendor wf_revokeVendor wf_transferOwnership wf_registerSBOM
        wf_updateSBOM)

lemma reachable_wf: "reachable K s \<Longrightarrow> wf_state K s"
  by (induction rule: reachable.induct) (auto intro: wf_constructor wf_exec)

lemma reachable_run:
  "reachable K s \<Longrightarrow> \<forall>t \<in> set ts. tx_timestamp t \<noteq> 0 \<Longrightarrow> reachable K (run K s ts)"
proof (induction ts arbitrary: s)
  case Nil
  then show ?case by (simp add: run_def)
next
  case (Cons t ts)
  have "reachable K (apply_tx K s t)"
    using Cons.prems by (auto simp: apply_tx_def split: sum.splits intro: reachable_step)
  with Cons show ?case by (simp add: run_def)
qed

subsection \<open>Records are written once\<close>

lemma exec_keeps_registered:
  "registered s h \<Longrightarrow> exec K s t = Inr s' \<Longrightarrow>
     sbomRecords s' h = sbomRecords s h \<and> rootHash s' h = rootHash s h"
  by (auto simp: exec_def registerSBOM_Inr updateSBOM_Inr registerVendor_def revokeVendor_def
      transferOwnership_def split: call.splits if_splits)

lemma apply_tx_keeps_registered:
  "registered s h \<Longrightarrow>
     sbomRecords (apply_tx K s t) h = sbomRecords s h \<and>
     rootHash (apply_tx K s t) h = rootHash s h"
  by (auto simp: apply_tx_def split: sum.splits dest: exec_keeps_registered)

lemma run_keeps_registered:
  "registered s h \<Longrightarrow>
     sbomRecords (run K s ts) h = sbomRecords s h \<and> rootHash (run K s ts) h = rootHash s h"
proof (induction ts arbitrary: s)
  case Nil
  then show ?case by (simp add: run_def)
next
  case (Cons t ts)
  let ?s1 = "apply_tx K s t"
  have keep: "sbomRecords ?s1 h = sbomRecords s h" "rootHash ?s1 h = rootHash s h"
    using apply_tx_keeps_registered [OF Cons.prems] by simp_all
  then have "registered ?s1 h"
    using Cons.prems by (simp add: registered_def)
  from Cons.IH [OF this] keep show ?case
    by (simp add: run_def)
qed

lemma run_registered: "registered s h \<Longrightarrow> registered (run K s ts) h"
  using run_keeps_registered [of s h K ts] by (simp add: registered_def)

lemma exec_target_registered:
  "exec K s0 t = Inr s \<Longrightarrow> tx_timestamp t \<noteq> 0 \<Longrightarrow> target (tx_call t) = Some h \<Longrightarrow>
     registered s h"
  by (cases "tx_call t")
     (auto simp: exec_def registerSBOM_Inr updateSBOM_Inr registered_def)

text \<open>
  The root of a registered hash is the same after any sequence of later transactions; a
  record stored by \<open>registerSBOM\<close> is its own root and a record stored by \<open>updateSBOM\<close>
  has the root of the old hash, when they are stored and, the block timestamp being
  nonzero, after any later transactions.
\<close>

lemma root_stable:
  "(registered s h \<longrightarrow> getRootHash (run K s ts) h = getRootHash s h) \<and>
   (registerSBOM K s a n h md sg = Inr s1 \<longrightarrow>
      previousHash (sbomRecords s1 h) = 0 \<and> getRootHash s1 h = h \<and>
      (n \<noteq> 0 \<longrightarrow> getRootHash (run K s1 ts) h = h)) \<and>
   (updateSBOM K s a n oh nh md sg = Inr s2 \<longrightarrow>
      getRootHash s2 nh = getRootHash s2 oh \<and> getRootHash s2 oh = getRootHash s oh \<and>
      (n \<noteq> 0 \<longrightarrow> getRootHash (run K s2 ts) nh = getRootHash (run K s2 ts) oh))"
proof (intro conjI impI)
  assume "registered s h"
  then show "getRootHash (run K s ts) h = getRootHash s h"
    by (simp add: getRootHash_def run_keeps_registered)
next
  assume reg: "registerSBOM K s a n h md sg = Inr s1"
  then show "previousHash (sbomRecords s1 h) = 0" and root: "getRootHash s1 h = h"
    by (simp_all add: registerSBOM_Inr getRootHash_def)
  assume "n \<noteq> 0"
  with reg have "registered s1 h"
    by (simp add: registerSBOM_Inr registered_def)
  with root show "getRootHash (run K s1 ts) h = h"
    by (simp add: getRootHash_def run_keeps_registered)
next
  assume upd: "updateSBOM K s a n oh nh md sg = Inr s2"
  then have ne: "oh \<noteq> nh"
    by (auto simp: updateSBOM_Inr)
  from upd ne show eq: "getRootHash s2 nh = getRootHash s2 oh"
    and "getRootHash s2 oh = getRootHash s oh"
    by (simp_all add: updateSBOM_Inr getRootHash_def)
  assume "n \<noteq> 0"
  with upd ne have "registered s2 nh" "registered s2 oh"
    by (simp_all add: updateSBOM_Inr registered_def)
  with eq show "getRootHash (run K s2 ts) nh = getRootHash (run K s2 ts) oh"
    by (simp add: getRootHash_def run_keeps_registered)
qed

subsection \<open>Queries on a registered hash\<close>

lemma verifySignature_registered:
  assumes "wf_state K s" and "registered s h"
  shows "verifySignature K s h = Inr (True, vendor (sbomRecords s h))"
  using assms by (simp add: verifySignature_def wf_state_def registered_def Let_def)

lemma verifyCompleteSBOM_registered:
  assumes "wf_state K s" and "registered s h"
  shows "verifyCompleteSBOM K s h =
           Inr (True, True, verified (vendors s (vendor (sbomRecords s h))),
                name (vendors s (vendor (sbomRecords s h))))"
  using assms verifySignature_registered [OF assms]
  by (simp add: verifyCompleteSBOM_def registered_def Let_def)

subsection \<open>The 32 bytes of a digest\<close>

lemma bytes_step:
  assumes "k < 32"
  shows "push_bit 8 (drop_bit (8 * (32 - k)) (h::bytes32)) OR
     ucast (ucast (drop_bit (8 * (31 - k)) h) :: uint8) = drop_bit (8 * (31 - k)) h"
proof (rule bit_word_eqI)
  fix n :: nat
  assume "n < LENGTH(256)"
  then have n: "n < 256" by simp
  have "8 \<le> n \<Longrightarrow> 8 * (32 - k) + n - 8 = 8 * (31 - k) + n"
    using assms by arith
  with n show "bit (push_bit 8 (drop_bit (8 * (32 - k)) h) OR
     ucast (ucast (drop_bit (8 * (31 - k)) h) :: uint8)) n = bit (drop_bit (8 * (31 - k)) h) n"
    by (auto simp: bit_simps)
qed

lemma bytes_fold:
  "k \<le> 32 \<Longrightarrow>
   foldl (\<lambda>acc b. push_bit 8 acc OR ucast b) 0
     (map (\<lambda>i. ucast (drop_bit (8 * (31 - i)) h) :: uint8) [0..<k])
   = drop_bit (8 * (32 - k)) (h::bytes32)"
proof (induction k)
  case 0
  show ?case by (simp add: drop_bit_eq_zero_iff_not_bit_last bit_simps) 
next
  case (Suc k)
  then have "k < 32" by simp
  from bytes_step [OF this, of h] Suc show ?case by simp
qed

lemma bytes32_roundtrip: "bytes_to_word (bytes32_to_bytes h) = h"
  using bytes_fold [of 32 h] by (simp add: bytes_to_word_def bytes32_to_bytes_def)

subsection \<open>The query functions do not revert\<close>

text \<open>
  In a reachable state no query reverts: the signature stored with a record passed the
  length and version checks when the record was written. For an unregistered hash the
  record queries give the empty answers; the history queries go through \<open>rootHash\<close>,
  which is zero there, and give the history stored under the zero hash.
\<close>

lemma queries_never_fail:
  assumes "reachable K s"
  shows "(\<exists>r. verifySignature K s h = Inr r) \<and> (\<exists>r. verifyCompleteSBOM K s h = Inr r) \<and>
         (\<not> registered s h \<longrightarrow>
            fst (verifySBOM s h) = False \<and>
            verifySignature K s h = Inr (False, 0) \<and>
            verifyCompleteSBOM K s h = Inr (False, False, False, []) \<and>
            getRootHash s h = 0 \<and>
            getVersionHistory s h = versionHistory s 0 \<and>
            (\<not> registered s 0 \<longrightarrow> getVersionHistory s h = [] \<and> getVersionCount s h = 0))"
proof -
  have wf: "wf_state K s"
    using assms by (rule reachable_wf)
  have absent: "\<not> registered s h \<Longrightarrow>
      fst (verifySBOM s h) = False \<and> verifySignature K s h = Inr (False, 0) \<and>
      verifyCompleteSBOM K s h = Inr (False, False, False, [])"
    by (simp add: verifySBOM_def verifySignature_def verifyCompleteSBOM_def registered_def
        Let_def)
  have root: "\<not> registered s h \<Longrightarrow> getRootHash s h = 0 \<and>
      getVersionHistory s h = versionHistory s 0"
    using wf by (simp add: wf_state_def getRootHash_def getVersionHistory_def)
  have empty: "\<not> registered s h \<Longrightarrow> \<not> registered s 0 \<Longrightarrow>
      getVersionHistory s h = [] \<and> getVersionCount s h = 0"
    using wf by (simp add: wf_state_def getVersionCount_def getVersionHistory_def)
  have total: "(\<exists>r. verifySignature K s h = Inr r) \<and> (\<exists>r. verifyCompleteSBOM K s h = Inr r)"
  proof (cases "registered s h")
    case True
    then show ?thesis
      using verifySignature_registered [OF wf True] verifyCompleteSBOM_registered [OF wf True]
      by blast
  next
    case False
    show ?thesis using absent [OF False] by blast
  qed
  show ?thesis
    using total absent root empty by blast
qed

subsection \<open>The states of the small instance\<close>

lemma foldl_bytes_zero:
  "foldl (\<lambda>acc b. push_bit 8 acc OR ucast b) (0::bytes32) (replicate n (0::uint8)) = 0"
  by (induction n) simp_all

lemma length_toy_sig: "length (toy_sig b) = 65"
  by (simp add: toy_sig_def)

lemma toy_sig_v: "toy_sig b ! 64 = 0"
  by (simp add: toy_sig_def nth_append nth_Cons')

lemma toy_recover: "recoverSigner toy_evm h (toy_sig b) = Inr (ucast (ucast b :: bytes32))"
  by (simp add: recoverSigner_def toy_evm_def toy_sig_def mload_def bytes_to_word_def Let_def
      nth_append nth_Cons' foldl_bytes_zero)

lemma toy_recover_5: "recoverSigner toy_evm h (toy_sig 5) = Inr 5"
  by (simp add: toy_recover)

lemma toy_recover_6: "recoverSigner toy_evm h (toy_sig 6) = Inr 6"
  by (simp add: toy_recover)

lemma demo_vendor_eq:
  "demo_vendor = (constructor 1)\<lparr>vendors := (vendors (constructor 1))(5 :=
       \<lparr>name = ''Acme'', website = ''https://acme.com'',
        contactEmail = ''security@acme.com'', verified = True, registeredAt = 1000\<rparr>),
     events := [VendorRegistered 5 ''Acme'' 1000]\<rparr>"
  by (simp add: demo_vendor_def run_def apply_tx_def exec_def tx_of_def registerVendor_def
      constructor_def zero_vendor_def)

lemma demo_vendor_facts:
  "verified (vendors demo_vendor 5)" "sbomRecords demo_vendor = (\<lambda>_. zero_record)"
  "rootHash demo_vendor = (\<lambda>_. 0)" "versionHistory demo_vendor = (\<lambda>_. [])"
  "registryOwner demo_vendor = 1" "name (vendors demo_vendor 5) = ''Acme''"
  by (simp_all add: demo_vendor_eq constructor_def)

lemma demo_v1_exec:
  "registerSBOM toy_evm demo_vendor 5 1001 0x11 ''v1.0'' (toy_sig 5) = Inr demo_v1"
  by (simp add: demo_v1_def run_def apply_tx_def exec_def tx_of_def registerSBOM_def
      toy_recover_5 demo_vendor_facts zero_record_def length_toy_sig)

lemma demo_v1_eq:
  "demo_v1 = demo_vendor\<lparr>sbomRecords := (sbomRecords demo_vendor)(0x11 :=
       \<lparr>hash = 0x11, vendor = 5, timestamp = 1001, metadata = ''v1.0'', previousHash = 0,
        signature = toy_sig 5\<rparr>),
     rootHash := (rootHash demo_vendor)(0x11 := 0x11),
     versionHistory := (versionHistory demo_vendor)(0x11 :=
       versionHistory demo_vendor 0x11 @ [0x11]),
     events := events demo_vendor @ [SBOMRegistered 0x11 5 1001 ''v1.0'']\<rparr>"
  using demo_v1_exec unfolding registerSBOM_Inr by blast

lemma demo_v1_facts:
  "sbomRecords demo_v1 = (\<lambda>_. zero_record)(0x11 :=
     \<lparr>hash = 0x11, vendor = 5, timestamp = 1001, metadata = ''v1.0'', previousHash = 0,
      signature = toy_sig 5\<rparr>)"
  "rootHash demo_v1 = (\<lambda>_. 0)(0x11 := 0x11)"
  "versionHistory demo_v1 = (\<lambda>_. [])(0x11 := [0x11])"
  "vendors demo_v1 = vendors demo_vendor"
  "registryOwner demo_v1 = 1"
  by (simp_all add: demo_v1_eq demo_vendor_facts)

lemma demo_v2_exec:
  "updateSBOM toy_evm demo_v1 5 1002 0x11 0x22 ''v2.0'' (toy_sig 5) = Inr demo_v2"
  by (simp add: demo_v2_def run_def apply_tx_def exec_def tx_of_def updateSBOM_def
      toy_recover_5 demo_v1_facts zero_record_def length_toy_sig)

lemma demo_v2_eq:
  "demo_v2 = demo_v1\<lparr>sbomRecords := (sbomRecords demo_v1)(0x22 :=
       \<lparr>hash = 0x22, vendor = 5, timestamp = 1002, metadata = ''v2.0'',
        previousHash = 0x11, signature = toy_sig 5\<rparr>),
     rootHash := (rootHash demo_v1)(0x22 := rootHash demo_v1 0x11),
     versionHistory := (versionHistory demo_v1)(rootHash demo_v1 0x11 :=
       versionHistory demo_v1 (rootHash demo_v1 0x11) @ [0x22]),
     events := events demo_v1 @ [SBOMUpdated 0x11 0x22 5 1002]\<rparr>"
  using demo_v2_exec unfolding updateSBOM_Inr by blast

lemma demo_v2_facts:
  "sbomRecords demo_v2 = ((\<lambda>_. zero_record)(0x11 :=
     \<lparr>hash = 0x11, vendor = 5, timestamp = 1001, metadata = ''v1.0'', previousHash = 0,
      signature = toy_sig 5\<rparr>))(0x22 :=
     \<lparr>hash = 0x22, vendor = 5, timestamp = 1002, metadata = ''v2.0'', previousHash = 0x11,
      signature = toy_sig 5\<rparr>)"
  "rootHash demo_v2 = ((\<lambda>_. 0)(0x11 := 0x11))(0x22 := 0x11)"
  "versionHistory demo_v2 = (\<lambda>_. [])(0x11 := [0x11, 0x22])"
  "vendors demo_v2 = vendors demo_vendor"
  "registryOwner demo_v2 = 1"
  by (simp_all add: demo_v2_eq demo_v1_facts)

lemma demo_revoked_exec: "revokeVendor demo_v2 1 1003 5 = Inr demo_revoked"
  by (simp add: demo_revoked_def run_def apply_tx_def exec_def tx_of_def revokeVendor_def
      demo_v2_facts demo_vendor_facts)

lemma demo_revoked_eq:
  "demo_revoked = demo_v2\<lparr>vendors := (vendors demo_v2)(5 :=
       (vendors demo_v2 5)\<lparr>verified := False\<rparr>),
     events := events demo_v2 @ [VendorRevoked 5 1003]\<rparr>"
  using demo_revoked_exec by (simp add: revokeVendor_def split: if_splits)

lemma demo_revoked_facts:
  "sbomRecords demo_revoked = sbomRecords demo_v2"
  "rootHash demo_revoked = rootHash demo_v2"
  "versionHistory demo_revoked = versionHistory demo_v2"
  "\<not> verified (vendors demo_revoked 5)"
  by (simp_all add: demo_revoked_eq)

lemma demo_zero_exec:
  "registerSBOM toy_evm demo_vendor 5 1001 0 ''v1.0'' (toy_sig 5) = Inr demo_zero"
  by (simp add: demo_zero_def run_def apply_tx_def exec_def tx_of_def registerSBOM_def
      toy_recover_5 demo_vendor_facts zero_record_def length_toy_sig)

lemma demo_zero_eq:
  "demo_zero = demo_vendor\<lparr>sbomRecords := (sbomRecords demo_vendor)(0 :=
       \<lparr>hash = 0, vendor = 5, timestamp = 1001, metadata = ''v1.0'', previousHash = 0,
        signature = toy_sig 5\<rparr>),
     rootHash := (rootHash demo_vendor)(0 := 0),
     versionHistory := (versionHistory demo_vendor)(0 :=
       versionHistory demo_vendor 0 @ [0]),
     events := events demo_vendor @ [SBOMRegistered 0 5 1001 ''v1.0'']\<rparr>"
  using demo_zero_exec unfolding registerSBOM_Inr by blast

lemma demo_zero_facts:
  "sbomRecords demo_zero = (\<lambda>_. zero_record)(0 :=
     \<lparr>hash = 0, vendor = 5, timestamp = 1001, metadata = ''v1.0'', previousHash = 0,
      signature = toy_sig 5\<rparr>)"
  "rootHash demo_zero = (\<lambda>_. 0)"
  "versionHistory demo_zero = (\<lambda>_. [])(0 := [0])"
  by (auto simp: demo_zero_eq demo_vendor_facts)

lemma demo_zero_update_exec:
  "updateSBOM toy_evm demo_zero 5 1002 0 0x22 ''v2.0'' (toy_sig 5) = Inr demo_zero_update"
  by (simp add: demo_zero_update_def run_def apply_tx_def exec_def tx_of_def updateSBOM_def
      toy_recover_5 demo_zero_facts zero_record_def length_toy_sig)

lemma demo_zero_update_eq:
  "demo_zero_update = demo_zero\<lparr>sbomRecords := (sbomRecords demo_zero)(0x22 :=
       \<lparr>hash = 0x22, vendor = 5, timestamp = 1002, metadata = ''v2.0'', previousHash = 0,
        signature = toy_sig 5\<rparr>),
     rootHash := (rootHash demo_zero)(0x22 := rootHash demo_zero 0),
     versionHistory := (versionHistory demo_zero)(rootHash demo_zero 0 :=
       versionHistory demo_zero (rootHash demo_zero 0) @ [0x22]),
     events := events demo_zero @ [SBOMUpdated 0 0x22 5 1002]\<rparr>"
  using demo_zero_update_exec unfolding updateSBOM_Inr by blast

lemma demo_zero_update_facts:
  "sbomRecords demo_zero_update 0x22 =
     \<lparr>hash = 0x22, vendor = 5, timestamp = 1002, metadata = ''v2.0'', previousHash = 0,
      signature = toy_sig 5\<rparr>"
  "rootHash demo_zero_update 0x22 = 0"
  "versionHistory demo_zero_update 0 = [0, 0x22]"
  by (simp_all add: demo_zero_update_eq demo_zero_facts)

lemma reachable_demo_vendor: "reachable toy_evm demo_vendor"
  unfolding demo_vendor_def
  by (rule reachable_run [OF reachable_init]) (simp add: tx_of_def)

lemma reachable_demo_v1: "reachable toy_evm demo_v1"
  unfolding demo_v1_def
  by (rule reachable_run [OF reachable_demo_vendor]) (simp add: tx_of_def)

lemma reachable_demo_v2: "reachable toy_evm demo_v2"
  unfolding demo_v2_def
  by (rule reachable_run [OF reachable_demo_v1]) (simp add: tx_of_def)

lemma reachable_demo_zero: "reachable toy_evm demo_zero"
  unfolding demo_zero_def
  by (rule reachable_run [OF reachable_demo_vendor]) (simp add: tx_of_def)

lemma reachable_demo_zero_update: "reachable toy_evm demo_zero_update"
  unfolding demo_zero_update_def
  by (rule reachable_run [OF reachable_demo_zero]) (simp add: tx_of_def)

lemma demo_registered:
  "\<not> registered demo_vendor 0x11"
  "registered demo_v1 0x11" "\<not> registered demo_v1 0x22" "\<not> registered demo_v1 0x33"
  "\<not> registered demo_v1 0x99"
  "registered demo_v2 0x11" "registered demo_v2 0x22" "\<not> registered demo_v2 0x33"
  "registered demo_revoked 0x11" "registered demo_revoked 0x22"
  "\<not> registered demo_revoked 0x33"
  "registered demo_zero 0" "\<not> registered demo_zero 0x11"
  by (simp_all add: registered_def demo_vendor_facts demo_v1_facts demo_v2_facts
      demo_revoked_facts demo_zero_facts zero_record_def)

section \<open>The claims\<close>

text \<open>
  C1, as amended. A successful \<open>registerSBOM\<close> or \<open>updateSBOM\<close> that stores a record
  under \<open>h\<close>, in a block with a nonzero timestamp, leaves \<open>h\<close> registered. Once \<open>h\<close> is
  registered, no sequence of later transactions changes the record stored for \<open>h\<close>, every
  later \<open>registerSBOM\<close> of \<open>h\<close> reverts with "SBOM already registered", and every later
  \<open>updateSBOM\<close> with \<open>h\<close> as its new hash reverts: with "Original SBOM not found" when
  the old hash is not registered, with "Only original vendor can update" when the old
  record belongs to another vendor, and with "New hash already registered" otherwise.
\<close>

theorem record_write_once:
  "(exec K s0 t0 = Inr s \<and> tx_timestamp t0 \<noteq> 0 \<and> target (tx_call t0) = Some h
      \<longrightarrow> registered s h) \<and>
   (registered s h \<longrightarrow>
      sbomRecords (run K s ts) h = sbomRecords s h \<and>
      registerSBOM K (run K s ts) a n h md sg = Inl SBOM_already_registered \<and>
      updateSBOM K (run K s ts) a n oh h md sg =
        (if \<not> registered (run K s ts) oh then Inl Original_SBOM_not_found
         else if vendor (sbomRecords (run K s ts) oh) \<noteq> a
           then Inl Only_original_vendor_can_update
         else Inl New_hash_already_registered))"
proof (intro conjI impI)
  assume "exec K s0 t0 = Inr s \<and> tx_timestamp t0 \<noteq> 0 \<and> target (tx_call t0) = Some h"
  then show "registered s h"
    using exec_target_registered by blast
next
  assume r: "registered s h"
  then show "sbomRecords (run K s ts) h = sbomRecords s h"
    by (simp add: run_keeps_registered)
  from r have r': "registered (run K s ts) h"
    by (rule run_registered)
  then show "registerSBOM K (run K s ts) a n h md sg = Inl SBOM_already_registered"
    by (simp add: registerSBOM_def registered_def)
  from r' show "updateSBOM K (run K s ts) a n oh h md sg =
        (if \<not> registered (run K s ts) oh then Inl Original_SBOM_not_found
         else if vendor (sbomRecords (run K s ts) oh) \<noteq> a
           then Inl Only_original_vendor_can_update
         else Inl New_hash_already_registered)"
    by (simp add: updateSBOM_def registered_def)
qed

theorem record_write_once_witness:
  "exec toy_evm demo_vendor (tx_of 5 1001 (RegisterSBOM 0x11 ''v1.0'' (toy_sig 5))) = Inr demo_v1 \<and>
   registered demo_v1 0x11 \<and>
   sbomRecords demo_v2 0x11 = sbomRecords demo_v1 0x11 \<and>
   registerSBOM toy_evm demo_v2 5 2000 0x11 ''again'' (toy_sig 5) = Inl SBOM_already_registered \<and>
   updateSBOM toy_evm demo_v2 5 2000 0x22 0x11 ''again'' (toy_sig 5)
     = Inl New_hash_already_registered"
proof -
  let ?t0 = "tx_of 5 1001 (RegisterSBOM 0x11 ''v1.0'' (toy_sig 5))"
  let ?ts = "[tx_of 5 1002 (UpdateSBOM 0x11 0x22 ''v2.0'' (toy_sig 5))]"
  have ex: "exec toy_evm demo_vendor ?t0 = Inr demo_v1"
    using demo_v1_exec by (simp add: exec_def tx_of_def)
  have t0: "tx_timestamp ?t0 \<noteq> 0" "target (tx_call ?t0) = Some 0x11"
    by (simp_all add: tx_of_def)
  have run: "run toy_evm demo_v1 ?ts = demo_v2"
    by (simp add: demo_v2_def)
  have old: "registered demo_v2 0x22" "vendor (sbomRecords demo_v2 0x22) = 5"
    by (simp_all add: demo_registered demo_v2_facts)
  note w = record_write_once [where K = toy_evm and ?s0.0 = demo_vendor and ?t0.0 = ?t0
      and s = demo_v1 and h = "0x11" and ts = ?ts and a = 5 and n = 2000
      and md = "''again''" and sg = "toy_sig 5" and oh = "0x22"]
  from w ex t0 have reg: "registered demo_v1 0x11"
    by blast
  with w show ?thesis
    using ex old by (simp add: run)
qed

text \<open>
  The claim as stated, that every such \<open>updateSBOM\<close> fails with \<open>RecordAlreadyExists\<close>,
  is false: with an unregistered old hash the call fails with \<open>RecordNotFound\<close>, since
  the old hash is checked first.
\<close>

theorem update_target_error_counterexample:
  "registered demo_v1 0x11 \<and> \<not> registered demo_v1 0x99 \<and>
   updateSBOM toy_evm demo_v1 5 2000 0x99 0x11 ''v2.0'' (toy_sig 5)
     = Inl Original_SBOM_not_found \<and>
   kind_of Original_SBOM_not_found \<noteq> RecordAlreadyExists"
  using demo_registered(2,5) by (simp add: updateSBOM_def registered_def)

text \<open>
  C2. In a reachable state \<open>registerSBOM\<close> checks, in this order, that the hash is not
  registered, that the signature has 65 bytes and a version of 27 or 28, that the
  recovered signer is the sender, and that the sender is a verified vendor; when all
  checks pass it stores the record \<open>{h, sender, now, metadata, previousHash = 0, signature}\<close>,
  sets \<open>rootHash[h] = h\<close> and \<open>versionHistory[h] = [h]\<close>. The only errors of the recovery are
  the two signature-encoding errors, and a call that fails leaves the state as it was.
\<close>

theorem registerSBOM_checks_then_commits:
  assumes "reachable K s"
  shows "registerSBOM K s a n h md sg =
           (if registered s h then Inl SBOM_already_registered
            else case recoverSigner K h sg of
              Inl e \<Rightarrow> Inl e
            | Inr signer \<Rightarrow>
                if signer \<noteq> a then Inl Signer_does_not_match_sender
                else if \<not> isVerifiedVendor s a then Inl Vendor_not_verified_register_first
                else Inr (s\<lparr>sbomRecords := (sbomRecords s)(h :=
                              \<lparr>hash = h, vendor = a, timestamp = n, metadata = md,
                               previousHash = 0, signature = sg\<rparr>),
                            rootHash := (rootHash s)(h := h),
                            versionHistory := (versionHistory s)(h := [h]),
                            events := events s @ [SBOMRegistered h a n md]\<rparr>)) \<and>
         (\<forall>e. recoverSigner K h sg = Inl e \<longrightarrow>
              kind_of e = InvalidSignatureLength \<or> kind_of e = InvalidSignatureVersion) \<and>
         (\<forall>e. registerSBOM K s a n h md sg = Inl e \<longrightarrow>
              apply_tx K s (tx_of a n (RegisterSBOM h md sg)) = s)"
proof (intro conjI allI impI)
  have wf: "wf_state K s"
    using assms by (rule reachable_wf)
  then have "\<not> registered s h \<Longrightarrow> versionHistory s h = []"
    by (simp add: wf_state_def)
  then show "registerSBOM K s a n h md sg =
           (if registered s h then Inl SBOM_already_registered
            else case recoverSigner K h sg of
              Inl e \<Rightarrow> Inl e
            | Inr signer \<Rightarrow>
                if signer \<noteq> a then Inl Signer_does_not_match_sender
                else if \<not> isVerifiedVendor s a then Inl Vendor_not_verified_register_first
                else Inr (s\<lparr>sbomRecords := (sbomRecords s)(h :=
                              \<lparr>hash = h, vendor = a, timestamp = n, metadata = md,
                               previousHash = 0, signature = sg\<rparr>),
                            rootHash := (rootHash s)(h := h),
                            versionHistory := (versionHistory s)(h := [h]),
                            events := events s @ [SBOMRegistered h a n md]\<rparr>))"
    by (auto simp: registerSBOM_def registered_def isVerifiedVendor_def recoverSigner_def
        Let_def split: sum.splits)
next
  fix e assume "recoverSigner K h sg = Inl e"
  then show "kind_of e = InvalidSignatureLength \<or> kind_of e = InvalidSignatureVersion"
    by (auto simp: recoverSigner_def Let_def split: if_splits)
next
  fix e assume "registerSBOM K s a n h md sg = Inl e"
  then show "apply_tx K s (tx_of a n (RegisterSBOM h md sg)) = s"
    by (simp add: apply_tx_def exec_def tx_of_def)
qed

theorem registerSBOM_checks_then_commits_witness:
  "reachable toy_evm demo_vendor \<and>
   registerSBOM toy_evm demo_vendor 5 1001 0x11 ''v1.0'' (toy_sig 5) =
     Inr (demo_vendor\<lparr>sbomRecords := (sbomRecords demo_vendor)(0x11 :=
            \<lparr>hash = 0x11, vendor = 5, timestamp = 1001, metadata = ''v1.0'',
             previousHash = 0, signature = toy_sig 5\<rparr>),
          rootHash := (rootHash demo_vendor)(0x11 := 0x11),
          versionHistory := (versionHistory demo_vendor)(0x11 := [0x11]),
          events := events demo_vendor @ [SBOMRegistered 0x11 5 1001 ''v1.0'']\<rparr>) \<and>
   registerSBOM toy_evm demo_vendor 6 1001 0x11 ''v1.0'' (toy_sig 6) =
     Inl Vendor_not_verified_register_first \<and>
   apply_tx toy_evm demo_vendor (tx_of 6 1001 (RegisterSBOM 0x11 ''v1.0'' (toy_sig 6)))
     = demo_vendor"
proof -
  note w5 = registerSBOM_checks_then_commits [OF reachable_demo_vendor, where a = 5
      and n = 1001 and h = "0x11" and md = "''v1.0''" and sg = "toy_sig 5"]
  note w6 = registerSBOM_checks_then_commits [OF reachable_demo_vendor, where a = 6
      and n = 1001 and h = "0x11" and md = "''v1.0''" and sg = "toy_sig 6"]
  have unv: "\<not> isVerifiedVendor demo_vendor 6" and ver: "isVerifiedVendor demo_vendor 5"
    by (simp_all add: isVerifiedVendor_def demo_vendor_eq constructor_def zero_vendor_def)
  have r5: "registerSBOM toy_evm demo_vendor 5 1001 0x11 ''v1.0'' (toy_sig 5) =
     Inr (demo_vendor\<lparr>sbomRecords := (sbomRecords demo_vendor)(0x11 :=
            \<lparr>hash = 0x11, vendor = 5, timestamp = 1001, metadata = ''v1.0'',
             previousHash = 0, signature = toy_sig 5\<rparr>),
          rootHash := (rootHash demo_vendor)(0x11 := 0x11),
          versionHistory := (versionHistory demo_vendor)(0x11 := [0x11]),
          events := events demo_vendor @ [SBOMRegistered 0x11 5 1001 ''v1.0'']\<rparr>)"
    using w5 [THEN conjunct1] demo_registered(1) ver by (simp add: toy_recover_5)
  have r6: "registerSBOM toy_evm demo_vendor 6 1001 0x11 ''v1.0'' (toy_sig 6) =
     Inl Vendor_not_verified_register_first"
    using w6 [THEN conjunct1] demo_registered(1) unv by (simp add: toy_recover_6)
  have "apply_tx toy_evm demo_vendor (tx_of 6 1001 (RegisterSBOM 0x11 ''v1.0'' (toy_sig 6)))
     = demo_vendor"
    using w6 [THEN conjunct2, THEN conjunct2] r6 by blast
  with r5 r6 reachable_demo_vendor show ?thesis by blast
qed

text \<open>
  C3. In a reachable state a successful \<open>updateSBOM\<close> from \<open>oldHash\<close> to \<open>newHash\<close> raises
  the version count of the root of \<open>oldHash\<close> by exactly one and appends \<open>newHash\<close> at the
  end of the root's history, the history before being a strict prefix of the history
  after; the same holds when the count and the history are asked for \<open>oldHash\<close>. The new
  record has \<open>previousHash = oldHash\<close> and the root of \<open>newHash\<close> is the root of \<open>oldHash\<close>.
\<close>

theorem update_appends:
  assumes "reachable K s" and "updateSBOM K s a n oh nh md sg = Inr s'"
  shows "getVersionCount s' (rootHash s oh) = getVersionCount s (rootHash s oh) + 1 \<and>
         getVersionHistory s' (rootHash s oh) = getVersionHistory s (rootHash s oh) @ [nh] \<and>
         strict_prefix (getVersionHistory s (rootHash s oh))
           (getVersionHistory s' (rootHash s oh)) \<and>
         getVersionHistory s (rootHash s oh) = versionHistory s (rootHash s oh) \<and>
         getVersionCount s' oh = getVersionCount s oh + 1 \<and>
         getVersionHistory s' oh = getVersionHistory s oh @ [nh] \<and>
         previousHash (sbomRecords s' nh) = oh \<and>
         getRootHash s' nh = rootHash s oh"
proof -
  let ?r = "rootHash s oh"
  have wf: "wf_state K s"
    using assms(1) by (rule reachable_wf)
  have old: "registered s oh" and new: "\<not> registered s nh"
    using assms(2) by (simp_all add: updateSBOM_Inr)
  have rr: "rootHash s ?r = ?r"
    using wf old by (simp add: wf_state_def)
  have ne: "oh \<noteq> nh"
    using old new by auto
  have s': "s' = s\<lparr>sbomRecords := (sbomRecords s)(nh :=
                \<lparr>hash = nh, vendor = a, timestamp = n, metadata = md, previousHash = oh,
                 signature = sg\<rparr>),
              rootHash := (rootHash s)(nh := ?r),
              versionHistory := (versionHistory s)(?r := versionHistory s ?r @ [nh]),
              events := events s @ [SBOMUpdated oh nh a n]\<rparr>"
    using assms(2) by (simp add: updateSBOM_Inr)
  have rr': "rootHash s' ?r = ?r"
    using rr by (simp add: s')
  have ro: "rootHash s' oh = ?r"
    using ne by (simp add: s')
  have vh: "versionHistory s' ?r = versionHistory s ?r @ [nh]"
    by (simp add: s')
  have h1: "getVersionHistory s' ?r = getVersionHistory s ?r @ [nh]"
    by (simp add: getVersionHistory_def rr rr' vh)
  have h2: "getVersionHistory s' oh = getVersionHistory s oh @ [nh]"
    by (simp add: getVersionHistory_def ro vh)
  have c1: "getVersionCount s' ?r = getVersionCount s ?r + 1"
    by (simp add: getVersionCount_def rr rr' vh)
  have c2: "getVersionCount s' oh = getVersionCount s oh + 1"
    by (simp add: getVersionCount_def ro vh)
  have p: "previousHash (sbomRecords s' nh) = oh" "getRootHash s' nh = ?r"
    by (simp_all add: s' getRootHash_def)
  have g: "getVersionHistory s ?r = versionHistory s ?r"
    by (simp add: getVersionHistory_def rr)
  show ?thesis
    using h1 h2 c1 c2 p g by (simp add: strict_prefix_def)
qed

theorem update_appends_witness:
  "reachable toy_evm demo_v1 \<and>
   updateSBOM toy_evm demo_v1 5 1002 0x11 0x22 ''v2.0'' (toy_sig 5) = Inr demo_v2 \<and>
   getVersionCount demo_v1 0x11 = 1 \<and> getVersionCount demo_v2 0x11 = 2 \<and>
   getVersionHistory demo_v1 0x11 = [0x11] \<and> getVersionHistory demo_v2 0x11 = [0x11, 0x22] \<and>
   previousHash (sbomRecords demo_v2 0x22) = 0x11 \<and> getRootHash demo_v2 0x22 = 0x11"
proof -
  have before: "rootHash demo_v1 0x11 = 0x11" "getVersionCount demo_v1 0x11 = 1"
    "getVersionHistory demo_v1 0x11 = [0x11]"
    by (simp_all add: getVersionCount_def getVersionHistory_def demo_v1_facts)
  from update_appends [OF reachable_demo_v1 demo_v2_exec] before
    reachable_demo_v1 demo_v2_exec
  show ?thesis by simp
qed

text \<open>
  C4. The claim says that a record with \<open>previousHash = null\<close> is always its own root.
  The contract has no null: a record with no predecessor stores \<open>previousHash = 0\<close>, and
  so does a record added by \<open>updateSBOM\<close> from the zero hash. After a verified vendor has
  registered the zero hash and updated it to \<open>0x22\<close>, the record of \<open>0x22\<close> is
  registered, its \<open>previousHash\<close> is zero, and its root is the zero hash, not \<open>0x22\<close>.
\<close>

theorem zero_previous_hash_not_own_root:
  "reachable toy_evm demo_zero_update \<and>
   updateSBOM toy_evm demo_zero 5 1002 0 0x22 ''v2.0'' (toy_sig 5) = Inr demo_zero_update \<and>
   fst (verifySBOM demo_zero_update 0x22) \<and>
   previousHash (snd (verifySBOM demo_zero_update 0x22)) = 0 \<and>
   getRootHash demo_zero_update 0x22 = 0 \<and>
   getRootHash demo_zero_update 0x22 \<noteq> 0x22 \<and>
   getVersionHistory demo_zero_update 0x22 = [0, 0x22]"
  using reachable_demo_zero_update demo_zero_update_exec
  by (simp add: verifySBOM_def getRootHash_def getVersionHistory_def demo_zero_update_facts)

text \<open>
  C5. \<open>updateSBOM\<close> does not look at the vendor table: for a registered old hash whose
  record names the sender as vendor, an unregistered new hash and a signature over the
  new hash that recovers to the sender, the call succeeds, whatever the verified flag of
  the sender is; and replacing the vendor table changes nothing in its result but the
  vendor table of the state after.
\<close>

theorem update_ignores_verified_status:
  assumes "registered s oh" and "vendor (sbomRecords s oh) = a"
    and "\<not> registered s nh" and "recoverSigner K nh sg = Inr a"
  shows "(\<exists>s'. updateSBOM K s a n oh nh md sg = Inr s') \<and>
         (\<forall>vs. updateSBOM K (s\<lparr>vendors := vs\<rparr>) a n oh nh md sg =
            map_sum id (\<lambda>s'. s'\<lparr>vendors := vs\<rparr>) (updateSBOM K s a n oh nh md sg))"
proof
  show "\<exists>s'. updateSBOM K s a n oh nh md sg = Inr s'"
    using assms by (simp add: updateSBOM_Inr)
  show "\<forall>vs. updateSBOM K (s\<lparr>vendors := vs\<rparr>) a n oh nh md sg =
            map_sum id (\<lambda>s'. s'\<lparr>vendors := vs\<rparr>) (updateSBOM K s a n oh nh md sg)"
    by (auto simp: updateSBOM_def Let_def split: sum.splits)
qed

text \<open>
  The publisher of the scenario, after being revoked, extends the chain.
\<close>

theorem update_ignores_verified_status_witness:
  "\<not> isVerifiedVendor demo_revoked 5 \<and> registered demo_revoked 0x22 \<and>
   vendor (sbomRecords demo_revoked 0x22) = 5 \<and> \<not> registered demo_revoked 0x33 \<and>
   recoverSigner toy_evm 0x33 (toy_sig 5) = Inr 5 \<and>
   (\<exists>s'. updateSBOM toy_evm demo_revoked 5 2000 0x22 0x33 ''v3.0'' (toy_sig 5) = Inr s')"
proof -
  have v: "vendor (sbomRecords demo_revoked 0x22) = 5"
    by (simp add: demo_revoked_facts demo_v2_facts)
  have u: "\<not> isVerifiedVendor demo_revoked 5"
    by (simp add: isVerifiedVendor_def demo_revoked_facts)
  from update_ignores_verified_status [OF demo_registered(10) v demo_registered(11)
      toy_recover_5, of 2000 "''v3.0''"]
  show ?thesis
    using u v demo_registered(10,11) toy_recover_5 by blast
qed

text \<open>
  C6. For a registered \<open>oldHash\<close>, \<open>updateSBOM\<close> called by anyone but the vendor stored
  in its record reverts with "Only original vendor can update" (the specification's
  \<open>NotOriginalPublisher\<close>), whatever the new hash, the metadata and the signature are: the
  ownership check comes before every check of the signature.
\<close>

theorem update_by_non_owner_rejected:
  assumes "registered s oldHash" and "vendor (sbomRecords s oldHash) \<noteq> sender"
  shows "updateSBOM K s sender n oldHash newHash md sg = Inl Only_original_vendor_can_update \<and>
         kind_of Only_original_vendor_can_update = NotOriginalPublisher"
  using assms by (simp add: updateSBOM_def registered_def)

text \<open>
  Address 6 holds a signature over \<open>0x33\<close> that recovers to itself, and is still
  refused the update of publisher 5's record.
\<close>

theorem update_by_non_owner_rejected_witness:
  "registered demo_v1 0x11 \<and> vendor (sbomRecords demo_v1 0x11) \<noteq> 6 \<and>
   \<not> registered demo_v1 0x33 \<and> recoverSigner toy_evm 0x33 (toy_sig 6) = Inr 6 \<and>
   updateSBOM toy_evm demo_v1 6 2000 0x11 0x33 ''v2.0'' (toy_sig 6)
     = Inl Only_original_vendor_can_update"
proof -
  have b: "vendor (sbomRecords demo_v1 0x11) \<noteq> 6"
    by (simp add: demo_v1_facts)
  show ?thesis
    using demo_registered(2,4) b toy_recover_6
      update_by_non_owner_rejected [OF demo_registered(2) b]
    by simp
qed

text \<open>
  C7. The claim says that the history of a hash with no record is empty and its version
  count zero. After a verified vendor has registered the zero hash, the history of the
  unregistered hash \<open>0x11\<close> is the history of the zero hash, and its version count is 1.
\<close>

theorem absent_hash_history_after_zero_hash:
  "reachable toy_evm demo_zero \<and> \<not> registered demo_zero 0x11 \<and>
   \<not> fst (verifySBOM demo_zero 0x11) \<and>
   getVersionHistory demo_zero 0x11 = [0] \<and> getVersionCount demo_zero 0x11 = 1"
  using reachable_demo_zero demo_registered(13)
  by (simp add: verifySBOM_def getVersionHistory_def getVersionCount_def demo_zero_facts
      zero_record_def)

text \<open>
  C8. In a reachable state, when the owner revokes vendor \<open>P\<close>, the complete
  verification of a hash registered by \<open>P\<close> answers (exists, signature valid, vendor
  verified, \<open>P\<close>'s name) before and (exists, signature valid, vendor not verified,
  \<open>P\<close>'s name) after; the record and the result of \<open>verifySignature\<close> are unchanged.
\<close>

theorem revocation_keeps_records:
  assumes "reachable K s" and "revokeVendor s a n P = Inr s'"
    and "registered s h" and "vendor (sbomRecords s h) = P"
  shows "verifyCompleteSBOM K s h = Inr (True, True, True, name (vendors s P)) \<and>
         verifyCompleteSBOM K s' h = Inr (True, True, False, name (vendors s P)) \<and>
         verifySBOM s' h = verifySBOM s h \<and>
         verifySignature K s' h = verifySignature K s h"
proof -
  have wf: "wf_state K s"
    using assms(1) by (rule reachable_wf)
  have wf': "wf_state K s'"
    using wf assms(2) by (rule wf_revokeVendor)
  have v: "verified (vendors s P)"
    and s': "s' = s\<lparr>vendors := (vendors s)(P := (vendors s P)\<lparr>verified := False\<rparr>),
                    events := events s @ [VendorRevoked P n]\<rparr>"
    using assms(2) by (auto simp: revokeVendor_def split: if_splits)
  have same: "sbomRecords s' = sbomRecords s"
    by (simp add: s')
  then have reg': "registered s' h"
    using assms(3) by (simp add: registered_def)
  have "verifyCompleteSBOM K s h = Inr (True, True, True, name (vendors s P))"
    using verifyCompleteSBOM_registered [OF wf assms(3)] assms(4) v by simp
  moreover have "verifyCompleteSBOM K s' h = Inr (True, True, False, name (vendors s P))"
    using verifyCompleteSBOM_registered [OF wf' reg'] assms(4) by (simp add: s')
  moreover have "verifySBOM s' h = verifySBOM s h"
    by (simp add: verifySBOM_def same)
  moreover have "verifySignature K s' h = verifySignature K s h"
    by (simp add: verifySignature_def same)
  ultimately show ?thesis by simp
qed

theorem revocation_keeps_records_witness:
  "reachable toy_evm demo_v2 \<and> revokeVendor demo_v2 1 1003 5 = Inr demo_revoked \<and>
   registered demo_v2 0x11 \<and> vendor (sbomRecords demo_v2 0x11) = 5 \<and>
   verifyCompleteSBOM toy_evm demo_v2 0x11 = Inr (True, True, True, ''Acme'') \<and>
   verifyCompleteSBOM toy_evm demo_revoked 0x11 = Inr (True, True, False, ''Acme'')"
proof -
  have v: "vendor (sbomRecords demo_v2 0x11) = 5"
    by (simp add: demo_v2_facts)
  have nm: "name (vendors demo_v2 5) = ''Acme''"
    by (simp add: demo_v2_facts demo_vendor_facts)
  from revocation_keeps_records [OF reachable_demo_v2 demo_revoked_exec
      demo_registered(6) v] nm
  show ?thesis
    using reachable_demo_v2 demo_revoked_exec demo_registered(6) v by simp
qed

text \<open>
  C9. \<open>recoverSigner\<close> fails with "Invalid signature length" exactly when the signature
  is not 65 bytes long. Otherwise it adds 27 to the byte at offset 64 when that byte is
  below 27, and fails with "Invalid signature version" exactly when the result is neither
  27 nor 28, that is, when the byte is none of 0, 1, 27 and 28. When both checks pass it
  returns what \<open>ecrecover\<close> gives for the digest of the 28-byte prefix followed by the
  32 bytes of the hash, the normalised version, and the two 32-byte halves of the
  signature. It takes no state.
\<close>

theorem recoverSigner_outcomes:
  "(recoverSigner K h sg = Inl Invalid_signature_length \<longleftrightarrow> length sg \<noteq> 65) \<and>
   (recoverSigner K h sg = Inl Invalid_signature_version \<longleftrightarrow>
      length sg = 65 \<and>
      (if sg ! 64 < 27 then sg ! 64 + 27 else sg ! 64) \<noteq> 27 \<and>
      (if sg ! 64 < 27 then sg ! 64 + 27 else sg ! 64) \<noteq> 28) \<and>
   (recoverSigner K h sg = Inl Invalid_signature_version \<longleftrightarrow>
      length sg = 65 \<and> sg ! 64 \<noteq> 0 \<and> sg ! 64 \<noteq> 1 \<and> sg ! 64 \<noteq> 27 \<and> sg ! 64 \<noteq> 28) \<and>
   (length sg = 65 \<and> (sg ! 64 = 0 \<or> sg ! 64 = 1 \<or> sg ! 64 = 27 \<or> sg ! 64 = 28) \<longrightarrow>
      recoverSigner K h sg =
        Inr (ecrecover K (keccak256 K (eth_prefix @ bytes32_to_bytes h))
              (if sg ! 64 < 27 then sg ! 64 + 27 else sg ! 64)
              (bytes_to_word (take 32 sg)) (bytes_to_word (take 32 (drop 32 sg))))) \<and>
   length eth_prefix = 28 \<and> length (bytes32_to_bytes h) = 32 \<and>
   bytes_to_word (bytes32_to_bytes h) = h"
proof -
  define v where "v = sg ! 64"
  define w where "w = (if v < 27 then v + 27 else v)"
  have small: "v < 27 \<Longrightarrow> (v + 27 = 27 \<longleftrightarrow> v = 0) \<and> (v + 27 = 28 \<longleftrightarrow> v = 1)"
    by (auto simp: word_less_nat_alt unat_word_ariths word_eq_iff_unsigned [where ?'a = nat])
  have norm: "(w = 27 \<or> w = 28) \<longleftrightarrow> (v = 0 \<or> v = 1 \<or> v = 27 \<or> v = 28)"
    using small by (cases "v < 27") (auto simp: w_def)
  have rs: "recoverSigner K h sg =
      (if length sg \<noteq> 65 then Inl Invalid_signature_length
       else if \<not> (w = 27 \<or> w = 28) then Inl Invalid_signature_version
       else Inr (ecrecover K (keccak256 K (eth_prefix @ bytes32_to_bytes h)) w
              (bytes_to_word (take 32 sg)) (bytes_to_word (take 32 (drop 32 sg)))))"
    by (simp add: recoverSigner_def Let_def mload_def w_def v_def)
  have a: "recoverSigner K h sg = Inl Invalid_signature_length \<longleftrightarrow> length sg \<noteq> 65"
    by (simp add: rs)
  have b: "recoverSigner K h sg = Inl Invalid_signature_version \<longleftrightarrow>
      length sg = 65 \<and> w \<noteq> 27 \<and> w \<noteq> 28"
    by (simp add: rs)
  have c: "recoverSigner K h sg = Inl Invalid_signature_version \<longleftrightarrow>
      length sg = 65 \<and> v \<noteq> 0 \<and> v \<noteq> 1 \<and> v \<noteq> 27 \<and> v \<noteq> 28"
    using b norm by blast
  have d: "length sg = 65 \<and> (v = 0 \<or> v = 1 \<or> v = 27 \<or> v = 28) \<longrightarrow>
      recoverSigner K h sg =
        Inr (ecrecover K (keccak256 K (eth_prefix @ bytes32_to_bytes h)) w
              (bytes_to_word (take 32 sg)) (bytes_to_word (take 32 (drop 32 sg))))"
    using norm by (simp add: rs)
  have e: "length eth_prefix = 28" "length (bytes32_to_bytes h) = 32"
    by (simp_all add: eth_prefix_def bytes32_to_bytes_def)
  show ?thesis
    using a b c d e bytes32_roundtrip [of h] unfolding w_def v_def by blast
qed

theorem recoverSigner_outcomes_witness:
  "length (toy_sig 5) = 65 \<and> toy_sig 5 ! 64 = 0 \<and>
   recoverSigner toy_evm 0x11 (toy_sig 5) =
     Inr (ecrecover toy_evm (keccak256 toy_evm (eth_prefix @ bytes32_to_bytes 0x11)) 27
           (bytes_to_word (take 32 (toy_sig 5)))
           (bytes_to_word (take 32 (drop 32 (toy_sig 5))))) \<and>
   recoverSigner toy_evm 0x11 (toy_sig 5) \<noteq> Inl Invalid_signature_length \<and>
   recoverSigner toy_evm 0x11 (toy_sig 5) \<noteq> Inl Invalid_signature_version"
  using recoverSigner_outcomes [of toy_evm "0x11" "toy_sig 5"] length_toy_sig [of 5]
    toy_sig_v [of 5]
  by simp

text \<open>
  C10. \<open>updateSBOM\<close> does not ask that the old hash be the latest of its chain: for any
  registered old hash, a call by its vendor with an unregistered new hash and a signature
  that recovers to the vendor succeeds and appends the new hash at the end of the root's
  history. When the old hash already has a successor, the successor and the new record
  then have the same \<open>previousHash\<close>, and the history remains one list in commit order.
\<close>

theorem update_from_any_version:
  assumes "registered s oh" and "vendor (sbomRecords s oh) = a"
    and "\<not> registered s nh" and "recoverSigner K nh sg = Inr a"
  shows "\<exists>s'. updateSBOM K s a n oh nh md sg = Inr s' \<and>
           versionHistory s' (rootHash s oh) = versionHistory s (rootHash s oh) @ [nh] \<and>
           getVersionHistory s' oh = getVersionHistory s oh @ [nh] \<and>
           previousHash (sbomRecords s' nh) = oh \<and>
           (\<forall>h1. registered s h1 \<and> previousHash (sbomRecords s h1) = oh \<longrightarrow>
              h1 \<noteq> nh \<and> sbomRecords s' h1 = sbomRecords s h1 \<and>
              previousHash (sbomRecords s' h1) = previousHash (sbomRecords s' nh))"
proof -
  let ?s' = "s\<lparr>sbomRecords := (sbomRecords s)(nh :=
                \<lparr>hash = nh, vendor = a, timestamp = n, metadata = md, previousHash = oh,
                 signature = sg\<rparr>),
              rootHash := (rootHash s)(nh := rootHash s oh),
              versionHistory := (versionHistory s)(rootHash s oh :=
                 versionHistory s (rootHash s oh) @ [nh]),
              events := events s @ [SBOMUpdated oh nh a n]\<rparr>"
  have ne: "oh \<noteq> nh"
    using assms(1,3) by auto
  have "updateSBOM K s a n oh nh md sg = Inr ?s'"
    using assms by (simp add: updateSBOM_Inr)
  moreover have "versionHistory ?s' (rootHash s oh) = versionHistory s (rootHash s oh) @ [nh]"
    by simp
  moreover have "getVersionHistory ?s' oh = getVersionHistory s oh @ [nh]"
    using ne by (simp add: getVersionHistory_def)
  moreover have "previousHash (sbomRecords ?s' nh) = oh"
    by simp
  moreover have "\<forall>h1. registered s h1 \<and> previousHash (sbomRecords s h1) = oh \<longrightarrow>
      h1 \<noteq> nh \<and> sbomRecords ?s' h1 = sbomRecords s h1 \<and>
      previousHash (sbomRecords ?s' h1) = previousHash (sbomRecords ?s' nh)"
    using assms(3) by auto
  ultimately show ?thesis by blast
qed

theorem update_from_any_version_witness:
  "registered demo_v2 0x11 \<and> vendor (sbomRecords demo_v2 0x11) = 5 \<and>
   \<not> registered demo_v2 0x33 \<and> recoverSigner toy_evm 0x33 (toy_sig 5) = Inr 5 \<and>
   registered demo_v2 0x22 \<and> previousHash (sbomRecords demo_v2 0x22) = 0x11 \<and>
   (\<exists>s'. updateSBOM toy_evm demo_v2 5 1003 0x11 0x33 ''v3.0'' (toy_sig 5) = Inr s' \<and>
      versionHistory s' 0x11 = [0x11, 0x22, 0x33] \<and>
      getVersionHistory s' 0x11 = [0x11, 0x22, 0x33] \<and>
      previousHash (sbomRecords s' 0x33) = 0x11 \<and>
      previousHash (sbomRecords s' 0x22) = 0x11)"
proof -
  have v: "vendor (sbomRecords demo_v2 0x11) = 5"
    and p: "previousHash (sbomRecords demo_v2 0x22) = 0x11"
    and r: "rootHash demo_v2 0x11 = 0x11"
    and vh: "versionHistory demo_v2 0x11 = [0x11, 0x22]"
    and gh: "getVersionHistory demo_v2 0x11 = [0x11, 0x22]"
    by (simp_all add: demo_v2_facts getVersionHistory_def)
  from update_from_any_version [OF demo_registered(6) v demo_registered(8) toy_recover_5,
      of 1003 "''v3.0''"]
  obtain s' where s': "updateSBOM toy_evm demo_v2 5 1003 0x11 0x33 ''v3.0'' (toy_sig 5) = Inr s'"
    "versionHistory s' (rootHash demo_v2 0x11) = versionHistory demo_v2 (rootHash demo_v2 0x11) @ [0x33]"
    "getVersionHistory s' 0x11 = getVersionHistory demo_v2 0x11 @ [0x33]"
    "previousHash (sbomRecords s' 0x33) = 0x11"
    "\<forall>h1. registered demo_v2 h1 \<and> previousHash (sbomRecords demo_v2 h1) = 0x11 \<longrightarrow>
        h1 \<noteq> 0x33 \<and> sbomRecords s' h1 = sbomRecords demo_v2 h1 \<and>
        previousHash (sbomRecords s' h1) = previousHash (sbomRecords s' 0x33)"
    by blast
  from s'(5) demo_registered(7) p s'(4) have "previousHash (sbomRecords s' 0x22) = 0x11"
    by metis
  with s'(1-4) show ?thesis
    using demo_registered(6,7,8) v p toy_recover_5 by (auto simp: r vh gh)
qed

end
